theory Spec2Isabelle
  imports Complex_Main
begin

section \<open>The training script \<^verbatim>\<open>train.py\<close> of tacred-bert\<close>

text \<open>
  The theory embeds the function \<^verbatim>\<open>train\<close> of \<^verbatim>\<open>src/train.py\<close>: the
  configuration header, the computation of \<^verbatim>\<open>grad_acc_steps\<close>, the training
  loop with gradient accumulation, the evaluation loop, the normalisation of the
  losses and the checkpoint section.

  The classifier, the optimizer, the scheduler, the loss function, the data loaders
  and the scorer are imported by \<^verbatim>\<open>train.py\<close> from modules that are not part of the
  source given here. They are parameters of the model (the record \<open>env\<close>); every
  call of one of them is recorded in a trace, so that the calls the script makes can
  be counted. Output on the terminal, the log file, \<^verbatim>\<open>config.json\<close> and the plot
  are written through helpers and are not part of the modelled file system, which
  holds the files written by \<^verbatim>\<open>torch.save\<close>, \<^verbatim>\<open>copyfile\<close> and \<^verbatim>\<open>os.remove\<close>.
\<close>

subsection \<open>Python values and exceptions\<close>

datatype site =
  GradAccSteps | LogCondition | AccumulationCondition | LossNormalisation | SaveEpochCondition

datatype error =
  ZeroDivisionError site | IndexError | KeyError | ValueError | NameError | FileNotFoundError

text \<open>\<^verbatim>\<open>xs[i]\<close> on a Python list: a negative index counts from the end, an index
  out of range raises \<^verbatim>\<open>IndexError\<close>.\<close>

definition py_index :: "'a list \<Rightarrow> int \<Rightarrow> error + 'a" where
  "py_index xs i =
     (if 0 \<le> i \<and> i < int (length xs) then Inr (xs ! nat i)
      else if i < 0 \<and> - int (length xs) \<le> i then Inr (xs ! nat (int (length xs) + i))
      else Inl IndexError)"

text \<open>The decimal text of an integer, as \<^verbatim>\<open>'{}'.format(epoch)\<close> writes it.\<close>

definition digit_char :: "nat \<Rightarrow> char" where
  "digit_char d = char_of (48 + d)"

fun digits :: "nat \<Rightarrow> string" where
  "digits n = (if n < 10 then [digit_char n] else digits (n div 10) @ [digit_char (n mod 10)])"

declare digits.simps [simp del]

definition py_str :: "int \<Rightarrow> string" where
  "py_str i = (if i < 0 then CHR ''-'' # digits (nat (- i)) else digits (nat i))"

text \<open>\<^verbatim>\<open>max(xs)\<close> on a non-empty list keeps the first maximal element: the running
  maximum is replaced only by a strictly greater item.\<close>

definition py_max :: "'f::linorder \<Rightarrow> 'f list \<Rightarrow> 'f" where
  "py_max x xs = foldl (\<lambda>m y. if m < y then y else m) x xs"

text \<open>\<^verbatim>\<open>torch.argmax\<close> along a row: the index of the first maximal entry.\<close>

fun argmax_list :: "'s::linorder list \<Rightarrow> nat" where
  "argmax_list [] = 0"
| "argmax_list [x] = 0"
| "argmax_list (x # y # ys) =
     (let k = argmax_list (y # ys) in if x < (y # ys) ! k then Suc k else 0)"

text \<open>\<^verbatim>\<open>torch.argmax(logits, dim=1).cpu().tolist()\<close>: one index for each row of the
  scores; a row without entries cannot be reduced and the call raises.\<close>

definition torch_argmax_dim1 :: "'s::linorder list list \<Rightarrow> error + nat list" where
  "torch_argmax_dim1 logits =
     (if [] \<in> set logits then Inl IndexError else Inr (map argmax_list logits))"

subsection \<open>Configuration\<close>

text \<open>The options of \<^verbatim>\<open>parse_args\<close> that \<^verbatim>\<open>train\<close> itself reads. The options
  \<^verbatim>\<open>data_dir\<close>, \<^verbatim>\<open>lr\<close>, \<^verbatim>\<open>optim\<close> and \<^verbatim>\<open>log\<close> are only handed on to the
  collaborators. Every integer option is declared with \<^verbatim>\<open>type=int\<close> and no
  further restriction.\<close>

record args =
  num_epoch :: int
  batch_size :: int
  input_method :: int
  output_method :: int
  log_step :: int
  save_epoch :: int
  save_dir :: string
  name :: string

definition input_method_name :: "string list" where
  "input_method_name = ['''', ''standard'', ''positional_embedding'', ''entity_markers'']"

definition output_method_name :: "string list" where
  "output_method_name = ['''', ''cls_token'', ''mention_pooling'', ''entity_start'']"

text \<open>Lines 58 to 63: the two names are looked up in the tables and printed.\<close>

definition method_names :: "args \<Rightarrow> error + string \<times> string" where
  "method_names a =
     (case py_index input_method_name (input_method a) of
        Inl e \<Rightarrow> Inl e
      | Inr inm \<Rightarrow>
         (case py_index output_method_name (output_method a) of
            Inl e \<Rightarrow> Inl e
          | Inr outm \<Rightarrow> Inr (inm, outm)))"

text \<open>Line 81: \<^verbatim>\<open>grad_acc_steps = 64 // args.batch_size\<close>. Python's \<^verbatim>\<open>//\<close> on
  integers rounds towards minus infinity, as \<open>div\<close> on \<open>int\<close> does, and raises on a
  zero divisor.\<close>

definition grad_acc_steps :: "int \<Rightarrow> error + int" where
  "grad_acc_steps bs = (if bs = 0 then Inl (ZeroDivisionError GradAccSteps) else Inr (64 div bs))"

text \<open>The accumulation factor in the words of the specification: the ceiling of the
  target batch size 64 over the configured batch size.\<close>

definition spec_accumulation_factor :: "int \<Rightarrow> int" where
  "spec_accumulation_factor bs = \<lceil>(64 :: real) / of_int bs\<rceil>"

definition model_save_dir :: "args \<Rightarrow> string" where
  "model_save_dir a = save_dir a @ ''/'' @ name a"

definition model_file :: "args \<Rightarrow> int \<Rightarrow> string" where
  "model_file a epoch = model_save_dir a @ ''/ckpt_epoch_'' @ py_str epoch @ ''.pt''"

definition best_model_file :: "args \<Rightarrow> string" where
  "best_model_file a = model_save_dir a @ ''/best_model.pt''"

subsection \<open>Collaborators, state and trace\<close>

text \<open>A batch is a Python list of tensors, any of which may be \<^verbatim>\<open>None\<close>. Scores
  (logits) are a list of rows, one row of class scores for each example.\<close>

type_synonym 't batch = "'t option list"

datatype ('m, 'l) event =
    ModelTrain
  | ModelEval
  | Forward bool
  | Criterion bool 'l
  | PrintStep int
  | Backward
  | OptimizerStep
  | SchedulerStep
  | ZeroGrad
  | TorchSave string 'm
  | CopyFile string string
  | Remove string

record ('t, 'm, 's, 'l, 'f) env =
  label_to_id :: "(string \<times> int) list"
  init_model :: 'm
  initial_files :: "string \<rightharpoonup> 'm"
  to_device :: "'t \<Rightarrow> 't"
  train_loader :: "int \<Rightarrow> 't batch list"
  dev_loader :: "int \<Rightarrow> 't batch list"
  train_examples :: nat
  dev_examples :: nat
  forward :: "bool \<Rightarrow> 'm \<Rightarrow> 't option \<times> 't option \<times> 't option \<times> 't option \<Rightarrow> 's list list"
  criterion :: "'s list list \<Rightarrow> 't option \<Rightarrow> 'l"
  backward :: "'l \<Rightarrow> 'm \<Rightarrow> 'm"
  optimizer_step :: "'m \<Rightarrow> 'm"
  scheduler_step :: "('m \<Rightarrow> 'm) option"
  zero_grad :: "'m \<Rightarrow> 'm"
  dataset_eval :: "string list \<Rightarrow> 'f"
  l_zero :: 'l
  l_add :: "'l \<Rightarrow> 'l \<Rightarrow> 'l"
  l_div :: "'l \<Rightarrow> int \<Rightarrow> error + 'l"
  l_mul :: "'l \<Rightarrow> int \<Rightarrow> 'l"

record ('m, 'l, 'f) state =
  model :: 'm
  training :: bool
  files :: "string \<rightharpoonup> 'm"
  trace :: "('m, 'l) event list"
  global_step :: int
  list_train_loss :: "'l list"
  list_dev_loss :: "'l list"
  list_dev_f1 :: "'f list"

definition emit :: "('m, 'l) event \<Rightarrow> ('m, 'l, 'f) state \<Rightarrow> ('m, 'l, 'f) state" where
  "emit ev st = st\<lparr>trace := trace st @ [ev]\<rparr>"

text \<open>Line 69: the lookup from ids to labels is the dictionary built from the swapped
  items of \<^verbatim>\<open>LABEL_TO_ID\<close>; among items with the same id the last one stays.\<close>

definition id2label :: "('t, 'm, 's, 'l, 'f) env \<Rightarrow> int \<rightharpoonup> string" where
  "id2label env = map_of (rev (map (\<lambda>(k, v). (v, k)) (label_to_id env)))"

text \<open>Line 215: \<^verbatim>\<open>[id2label[p] for p in predictions]\<close>.\<close>

fun lookup_all :: "(int \<rightharpoonup> string) \<Rightarrow> nat list \<Rightarrow> error + string list" where
  "lookup_all m [] = Inr []"
| "lookup_all m (p # ps) =
     (case m (int p) of
        None \<Rightarrow> Inl KeyError
      | Some l \<Rightarrow> (case lookup_all m ps of Inl e \<Rightarrow> Inl e | Inr ls \<Rightarrow> Inr (l # ls)))"

definition enumerate_py :: "'a list \<Rightarrow> (nat \<times> 'a) list" where
  "enumerate_py xs = zip [0..<length xs] xs"

subsection \<open>One batch\<close>

text \<open>Lines 152 to 154 (and 196 to 198): the loop that moves the fields of the batch
  to the device assigns the variable \<^verbatim>\<open>i\<close>, which is also the variable of the
  enclosing \<^verbatim>\<open>enumerate\<close> loop. The function returns the value \<^verbatim>\<open>i\<close> has after
  the loop together with the batch.\<close>

fun device_loop :: "('t \<Rightarrow> 't) \<Rightarrow> nat list \<Rightarrow> int \<times> 't batch \<Rightarrow> int \<times> 't batch" where
  "device_loop dev [] (i, batch) = (i, batch)"
| "device_loop dev (j # js) (i, batch) =
     device_loop dev js
       (int j, (case batch ! j of None \<Rightarrow> batch | Some t \<Rightarrow> batch[j := Some (dev t)]))"

text \<open>Line 155: \<^verbatim>\<open>labels, input_ids, att_mask, e1_pos, e2_pos = batch\<close> raises
  \<^verbatim>\<open>ValueError\<close> unless the batch has exactly five fields.\<close>

definition unpack5 :: "'a list \<Rightarrow> error + 'a \<times> 'a \<times> 'a \<times> 'a \<times> 'a" where
  "unpack5 b =
     (case b of
        [labels, input_ids, att_mask, e1_pos, e2_pos] \<Rightarrow>
          Inr (labels, input_ids, att_mask, e1_pos, e2_pos)
      | _ \<Rightarrow> Inl ValueError)"

text \<open>Lines 178 to 181.\<close>

definition optimize ::
  "('t, 'm, 's, 'l, 'f) env \<Rightarrow> ('m, 'l, 'f) state \<Rightarrow> ('m, 'l, 'f) state" where
  "optimize env st =
     (let st1 = emit OptimizerStep (st\<lparr>model := optimizer_step env (model st)\<rparr>);
          st2 = (case scheduler_step env of
                   None \<Rightarrow> st1
                 | Some sched \<Rightarrow> emit SchedulerStep (st1\<lparr>model := sched (model st1)\<rparr>))
      in emit ZeroGrad (st2\<lparr>model := zero_grad env (model st2)\<rparr>))"

text \<open>Lines 149 to 184, the body of the training loop for the batch \<open>batch0\<close> that
  \<^verbatim>\<open>enumerate\<close> yields with index \<open>idx\<close>. \<open>gas\<close> is \<^verbatim>\<open>grad_acc_steps\<close>.\<close>

definition train_batch ::
  "('t, 'm, 's, 'l, 'f) env \<Rightarrow> args \<Rightarrow> int \<Rightarrow> nat \<times> 't batch \<Rightarrow>
   ('m, 'l, 'f) state \<times> 'l \<Rightarrow> error \<times> ('m, 'l, 'f) state + ('m, 'l, 'f) state \<times> 'l" where
  "train_batch env a gas ib acc =
     (let (idx, batch0) = ib;
          (st, train_loss) = acc;
          (i, batch) = device_loop (to_device env) [0..<length batch0] (int idx, batch0)
      in case unpack5 batch of
           Inl e \<Rightarrow> Inl (e, st)
         | Inr (labels, input_ids, att_mask, e1_pos, e2_pos) \<Rightarrow>
            (let logits = forward env (training st) (model st) (input_ids, att_mask, e1_pos, e2_pos);
                 st1 = emit (Forward (training st)) st;
                 loss = criterion env logits labels;
                 st2 = emit (Criterion (training st) loss) st1
             in if log_step a = 0 then Inl (ZeroDivisionError LogCondition, st2)
                else
                 (let st3 = (if global_step st2 mod log_step a = 0
                             then emit (PrintStep (global_step st2)) st2 else st2);
                      st4 = emit Backward (st3\<lparr>model := backward env loss (model st3)\<rparr>)
                  in if gas = 0 then Inl (ZeroDivisionError AccumulationCondition, st4)
                     else
                      (let st5 = (if (i + 1) mod gas = 0 then optimize env st4 else st4)
                       in Inr (st5\<lparr>global_step := global_step st5 + 1\<rparr>,
                               l_add env train_loss loss)))))"

fun train_loop ::
  "('t, 'm, 's, 'l, 'f) env \<Rightarrow> args \<Rightarrow> int \<Rightarrow> (nat \<times> 't batch) list \<Rightarrow>
   ('m, 'l, 'f) state \<times> 'l \<Rightarrow> error \<times> ('m, 'l, 'f) state + ('m, 'l, 'f) state \<times> 'l" where
  "train_loop env a gas [] acc = Inr acc"
| "train_loop env a gas (ib # ibs) acc =
     (case train_batch env a gas ib acc of
        Inl e \<Rightarrow> Inl e
      | Inr acc' \<Rightarrow> train_loop env a gas ibs acc')"

text \<open>Lines 146 to 184: the training pass of one epoch.\<close>

definition train_pass ::
  "('t, 'm, 's, 'l, 'f) env \<Rightarrow> args \<Rightarrow> int \<Rightarrow> int \<Rightarrow>
   ('m, 'l, 'f) state \<Rightarrow> error \<times> ('m, 'l, 'f) state + ('m, 'l, 'f) state \<times> 'l" where
  "train_pass env a gas epoch st =
     train_loop env a gas (enumerate_py (train_loader env epoch))
       (emit ModelTrain (st\<lparr>training := True\<rparr>), l_zero env)"

subsection \<open>The evaluation pass\<close>

text \<open>Lines 194 to 214, the body of the evaluation loop. The accumulator holds the
  state, the predictions collected so far and the running loss.\<close>

definition eval_batch ::
  "('t, 'm, 's::linorder, 'l, 'f) env \<Rightarrow> nat \<times> 't batch \<Rightarrow>
   ('m, 'l, 'f) state \<times> nat list \<times> 'l \<Rightarrow>
   error \<times> ('m, 'l, 'f) state + ('m, 'l, 'f) state \<times> nat list \<times> 'l" where
  "eval_batch env ib acc =
     (let (idx, batch0) = ib;
          (st, predictions, dev_loss) = acc;
          (i, batch) = device_loop (to_device env) [0..<length batch0] (int idx, batch0)
      in case unpack5 batch of
           Inl e \<Rightarrow> Inl (e, st)
         | Inr (labels, input_ids, att_mask, e1_pos, e2_pos) \<Rightarrow>
            (let logits = forward env (training st) (model st) (input_ids, att_mask, e1_pos, e2_pos);
                 st1 = emit (Forward (training st)) st;
                 loss = criterion env logits labels;
                 st2 = emit (Criterion (training st) loss) st1
             in case torch_argmax_dim1 logits of
                  Inl e \<Rightarrow> Inl (e, st2)
                | Inr preds \<Rightarrow> Inr (st2, predictions @ preds, l_add env dev_loss loss)))"

fun eval_loop ::
  "('t, 'm, 's::linorder, 'l, 'f) env \<Rightarrow> (nat \<times> 't batch) list \<Rightarrow>
   ('m, 'l, 'f) state \<times> nat list \<times> 'l \<Rightarrow>
   error \<times> ('m, 'l, 'f) state + ('m, 'l, 'f) state \<times> nat list \<times> 'l" where
  "eval_loop env [] acc = Inr acc"
| "eval_loop env (ib # ibs) acc =
     (case eval_batch env ib acc of
        Inl e \<Rightarrow> Inl e
      | Inr acc' \<Rightarrow> eval_loop env ibs acc')"

text \<open>Lines 189 to 215: the evaluation pass over the batches \<open>bs\<close> of the dev loader.
  It returns the state, the predicted labels and the accumulated dev loss.\<close>

definition eval_pass ::
  "('t, 'm, 's::linorder, 'l, 'f) env \<Rightarrow> 't batch list \<Rightarrow> ('m, 'l, 'f) state \<Rightarrow>
   error \<times> ('m, 'l, 'f) state + ('m, 'l, 'f) state \<times> string list \<times> 'l" where
  "eval_pass env bs st =
     (case eval_loop env (enumerate_py bs)
             (emit ModelEval (st\<lparr>training := False\<rparr>), [], l_zero env) of
        Inl e \<Rightarrow> Inl e
      | Inr (st1, predictions, dev_loss) \<Rightarrow>
         (case lookup_all (id2label env) predictions of
            Inl e \<Rightarrow> Inl (e, st1)
          | Inr labels \<Rightarrow> Inr (st1, labels, dev_loss)))"

text \<open>The scores the model returns in evaluation mode for one batch of the loader,
  after the batch has been moved to the device and unpacked.\<close>

definition batch_logits :: "('t, 'm, 's, 'l, 'f) env \<Rightarrow> 'm \<Rightarrow> 't batch \<Rightarrow> 's list list" where
  "batch_logits env m b =
     (case unpack5 (map (map_option (to_device env)) b) of
        Inl e \<Rightarrow> []
      | Inr (labels, input_ids, att_mask, e1_pos, e2_pos) \<Rightarrow>
          forward env False m (input_ids, att_mask, e1_pos, e2_pos))"

subsection \<open>Loss normalisation and checkpoints\<close>

text \<open>Lines 223 and 224: \<^verbatim>\<open>loss / len(loader.dataset) * opt['batch_size']\<close>.\<close>

definition normalise ::
  "('t, 'm, 's, 'l, 'f) env \<Rightarrow> 'l \<Rightarrow> nat \<Rightarrow> int \<Rightarrow> error + 'l" where
  "normalise env loss_sum n bs =
     (case l_div env loss_sum (int n) of
        Inl e \<Rightarrow> Inl e
      | Inr q \<Rightarrow> Inr (l_mul env q bs))"

definition torch_save :: "string \<Rightarrow> ('m, 'l, 'f) state \<Rightarrow> ('m, 'l, 'f) state" where
  "torch_save path st = emit (TorchSave path (model st)) (st\<lparr>files := (files st)(path \<mapsto> model st)\<rparr>)"

definition copyfile ::
  "string \<Rightarrow> string \<Rightarrow> ('m, 'l, 'f) state \<Rightarrow> error \<times> ('m, 'l, 'f) state + ('m, 'l, 'f) state" where
  "copyfile src dst st =
     (case files st src of
        None \<Rightarrow> Inl (FileNotFoundError, st)
      | Some c \<Rightarrow> Inr (emit (CopyFile src dst) (st\<lparr>files := (files st)(dst \<mapsto> c)\<rparr>)))"

definition os_remove ::
  "string \<Rightarrow> ('m, 'l, 'f) state \<Rightarrow> error \<times> ('m, 'l, 'f) state + ('m, 'l, 'f) state" where
  "os_remove path st =
     (case files st path of
        None \<Rightarrow> Inl (FileNotFoundError, st)
      | Some c \<Rightarrow> Inr (emit (Remove path) (st\<lparr>files := (files st)(path := None)\<rparr>)))"

text \<open>Line 234: \<^verbatim>\<open>len(list_dev_f1) == 0 or dev_f1 > max(list_dev_f1)\<close>.\<close>

definition is_new_best :: "'f::linorder \<Rightarrow> 'f list \<Rightarrow> bool" where
  "is_new_best dev_f1 fs = (case fs of [] \<Rightarrow> True | x # xs \<Rightarrow> py_max x xs < dev_f1)"

text \<open>Lines 232 to 238.\<close>

definition checkpoint ::
  "args \<Rightarrow> int \<Rightarrow> 'f::linorder \<Rightarrow> ('m, 'l, 'f) state \<Rightarrow>
   error \<times> ('m, 'l, 'f) state + ('m, 'l, 'f) state" where
  "checkpoint a epoch dev_f1 st =
     (let st1 = torch_save (model_file a epoch) st
      in case (if is_new_best dev_f1 (list_dev_f1 st1)
               then copyfile (model_file a epoch) (best_model_file a) st1 else Inr st1) of
           Inl e \<Rightarrow> Inl e
         | Inr st2 \<Rightarrow>
            if save_epoch a = 0 then Inl (ZeroDivisionError SaveEpochCondition, st2)
            else if epoch mod save_epoch a \<noteq> 0 then os_remove (model_file a epoch) st2
            else Inr st2)"

subsection \<open>Epochs and the whole run\<close>

text \<open>Lines 146 to 246, the body of the loop over the epochs.\<close>

definition epoch_body ::
  "('t, 'm, 's::linorder, 'l, 'f::linorder) env \<Rightarrow> args \<Rightarrow> int \<Rightarrow> int \<Rightarrow>
   ('m, 'l, 'f) state \<Rightarrow> error \<times> ('m, 'l, 'f) state + ('m, 'l, 'f) state" where
  "epoch_body env a gas epoch st =
     (case train_pass env a gas epoch st of
        Inl e \<Rightarrow> Inl e
      | Inr (st1, train_loss) \<Rightarrow>
         (case eval_pass env (dev_loader env epoch) st1 of
            Inl e \<Rightarrow> Inl e
          | Inr (st2, predictions, dev_loss) \<Rightarrow>
             (let dev_f1 = dataset_eval env predictions
              in case normalise env train_loss (train_examples env) (batch_size a) of
                   Inl e \<Rightarrow> Inl (e, st2)
                 | Inr train_loss' \<Rightarrow>
                    (case normalise env dev_loss (dev_examples env) (batch_size a) of
                       Inl e \<Rightarrow> Inl (e, st2)
                     | Inr dev_loss' \<Rightarrow>
                        (case checkpoint a epoch dev_f1 st2 of
                           Inl e \<Rightarrow> Inl e
                         | Inr st3 \<Rightarrow>
                            Inr (st3\<lparr>list_train_loss := list_train_loss st3 @ [train_loss'],
                                     list_dev_loss := list_dev_loss st3 @ [dev_loss'],
                                     list_dev_f1 := list_dev_f1 st3 @ [dev_f1]\<rparr>))))))"

text \<open>Line 145: \<^verbatim>\<open>for epoch in range(1, opt['num_epoch']+1)\<close>; \<open>epoch_loop env a gas n\<close>
  runs the epochs \<open>1, \<dots>, n\<close> in this order and stops at the first exception.\<close>

fun epoch_loop ::
  "('t, 'm, 's::linorder, 'l, 'f::linorder) env \<Rightarrow> args \<Rightarrow> int \<Rightarrow> nat \<Rightarrow>
   ('m, 'l, 'f) state \<Rightarrow> error \<times> ('m, 'l, 'f) state + ('m, 'l, 'f) state" where
  "epoch_loop env a gas 0 st = Inr st"
| "epoch_loop env a gas (Suc n) st =
     (case epoch_loop env a gas n st of
        Inl e \<Rightarrow> Inl e
      | Inr st' \<Rightarrow> epoch_body env a gas (int (Suc n)) st')"

text \<open>The state when \<^verbatim>\<open>train\<close> reaches the loop: the model as the collaborators
  built it, the files found on disk, nothing traced, \<^verbatim>\<open>global_step = 0\<close> and the
  three histories empty (lines 136 to 142).\<close>

definition initial_state :: "('t, 'm, 's, 'l, 'f) env \<Rightarrow> ('m, 'l, 'f) state" where
  "initial_state env =
     \<lparr>model = init_model env, training = False, files = initial_files env, trace = [],
      global_step = 0, list_train_loss = [], list_dev_loss = [], list_dev_f1 = []\<rparr>"

text \<open>The function \<^verbatim>\<open>train\<close>. The last line prints the variable \<^verbatim>\<open>epoch\<close>, which
  is unbound when the loop has not run.\<close>

definition train ::
  "('t, 'm, 's::linorder, 'l, 'f::linorder) env \<Rightarrow> args \<Rightarrow>
   error \<times> ('m, 'l, 'f) state + ('m, 'l, 'f) state" where
  "train env a =
     (case method_names a of
        Inl e \<Rightarrow> Inl (e, initial_state env)
      | Inr names \<Rightarrow>
         (case grad_acc_steps (batch_size a) of
            Inl e \<Rightarrow> Inl (e, initial_state env)
          | Inr gas \<Rightarrow>
             (case epoch_loop env a gas (nat (num_epoch a)) (initial_state env) of
                Inl e \<Rightarrow> Inl e
              | Inr st \<Rightarrow> if num_epoch a < 1 then Inl (NameError, st) else Inr st)))"

subsection \<open>Reading the trace\<close>

text \<open>The losses the loss function returned, in the order of the calls, for the calls
  made while the model was in the mode \<open>m\<close> (\<open>True\<close> for training).\<close>

fun losses_of :: "bool \<Rightarrow> ('m, 'l) event list \<Rightarrow> 'l list" where
  "losses_of m [] = []"
| "losses_of m (Criterion b l # evs) = (if b = m then l # losses_of m evs else losses_of m evs)"
| "losses_of m (ev # evs) = losses_of m evs"

text \<open>The files written by \<^verbatim>\<open>torch.save\<close> with their contents, in the order of the
  calls.\<close>

fun saves_of :: "('m, 'l) event list \<Rightarrow> (string \<times> 'm) list" where
  "saves_of [] = []"
| "saves_of (TorchSave p m # evs) = (p, m) # saves_of evs"
| "saves_of (ev # evs) = saves_of evs"

text \<open>The events of lines 178 to 181, and the events of one pass through the body of
  the training loop for a batch of five fields.\<close>

definition opt_events :: "('t, 'm, 's, 'l, 'f) env \<Rightarrow> ('m, 'l) event list" where
  "opt_events env =
     OptimizerStep # (case scheduler_step env of None \<Rightarrow> [] | Some f \<Rightarrow> [SchedulerStep]) @ [ZeroGrad]"

definition train_events ::
  "('t, 'm, 's, 'l, 'f) env \<Rightarrow> args \<Rightarrow> int \<Rightarrow> ('m, 'l, 'f) state \<Rightarrow> 'l \<Rightarrow> ('m, 'l) event list" where
  "train_events env a gas st loss =
     [Forward (training st), Criterion (training st) loss] @
     (if global_step st mod log_step a = 0 then [PrintStep (global_step st)] else []) @
     [Backward] @ (if 5 mod gas = 0 then opt_events env else [])"

text \<open>The parts of the state that neither the training loop nor the evaluation loop
  touches.\<close>

definition same_frame :: "('m, 'l, 'f) state \<Rightarrow> ('m, 'l, 'f) state \<Rightarrow> bool" where
  "same_frame st st' \<longleftrightarrow>
     files st' = files st \<and> training st' = training st \<and> list_dev_f1 st' = list_dev_f1 st \<and>
     list_train_loss st' = list_train_loss st \<and> list_dev_loss st' = list_dev_loss st"

subsection \<open>An example configuration\<close>

text \<open>A small run on which the theorems are instantiated: two labels, two training
  batches and one dev batch of five fields each (the attention mask is \<^verbatim>\<open>None\<close>),
  two examples in every batch, a model whose state counts the optimizer steps and
  whose scores depend on that count, and the default options with \<^verbatim>\<open>--num_epoch 2\<close>
  and \<^verbatim>\<open>--save_epoch 2\<close>. The dev F1 is 0.70 in the first epoch and 0.65 in the
  second.\<close>

definition demo_batch :: "nat batch" where
  "demo_batch = [Some 0, Some 1, None, Some 2, Some 3]"

definition demo_env :: "(nat, nat, int, int, real) env" where
  "demo_env =
     \<lparr>label_to_id = [(''no_relation'', 0), (''per:title'', 1)],
      init_model = 0,
      initial_files = Map.empty,
      to_device = (\<lambda>t. t + 10),
      train_loader = (\<lambda>epoch. [demo_batch, demo_batch]),
      dev_loader = (\<lambda>epoch. [demo_batch]),
      train_examples = 4,
      dev_examples = 2,
      forward = (\<lambda>tr m x. [[int m, 3], [0, int m]]),
      criterion = (\<lambda>logits labels. 6),
      backward = (\<lambda>loss m. m),
      optimizer_step = Suc,
      scheduler_step = Some (\<lambda>m. m),
      zero_grad = (\<lambda>m. m),
      dataset_eval = (\<lambda>preds. if preds = [''per:title'', ''per:title''] then 7 / 10 else 13 / 20),
      l_zero = 0,
      l_add = (\<lambda>x y. x + y),
      l_div = (\<lambda>x n. if n = 0 then Inl (ZeroDivisionError LossNormalisation) else Inr (x div n)),
      l_mul = (\<lambda>x n. x * n)\<rparr>"

definition demo_args :: args where
  "demo_args =
     \<lparr>num_epoch = 2, batch_size = 64, input_method = 3, output_method = 3, log_step = 50,
      save_epoch = 2, save_dir = ''./saved_models'', name = ''test''\<rparr>"

subsection \<open>Reading an evaluation pass\<close>

text \<open>The loss of one batch of the loader in evaluation mode, computed as the loop
  computes it.\<close>

definition batch_loss :: "('t, 'm, 's, 'l, 'f) env \<Rightarrow> 'm \<Rightarrow> 't batch \<Rightarrow> 'l" where
  "batch_loss env m b =
     (case unpack5 (map (map_option (to_device env)) b) of
        Inl e \<Rightarrow> l_zero env
      | Inr (labels, input_ids, att_mask, e1_pos, e2_pos) \<Rightarrow>
          criterion env (forward env False m (input_ids, att_mask, e1_pos, e2_pos)) labels)"

text \<open>The events of an evaluation loop over the batches \<open>bs\<close>.\<close>

definition eval_events :: "('t, 'm, 's, 'l, 'f) env \<Rightarrow> 'm \<Rightarrow> 't batch list \<Rightarrow> ('m, 'l) event list" where
  "eval_events env m bs = concat (map (\<lambda>b. [Forward False, Criterion False (batch_loss env m b)]) bs)"

text \<open>The batches on which the evaluation loop raises nothing: five fields, and at
  least one class score in every row.\<close>

definition eval_ok :: "('t, 'm, 's, 'l, 'f) env \<Rightarrow> 'm \<Rightarrow> 't batch list \<Rightarrow> bool" where
  "eval_ok env m bs \<longleftrightarrow> (\<forall>b \<in> set bs. length b = 5 \<and> [] \<notin> set (batch_logits env m b))"

text \<open>The class indices the evaluation loop collects.\<close>

definition eval_predictions :: "('t, 'm, 's::linorder, 'l, 'f) env \<Rightarrow> 'm \<Rightarrow> 't batch list \<Rightarrow> nat list" where
  "eval_predictions env m bs = map argmax_list (concat (map (batch_logits env m) bs))"

section \<open>Properties\<close>

subsection \<open>The accumulation factor\<close>

lemma floor_64_div: "\<lfloor>(64::real) / of_int bs\<rfloor> = 64 div bs"
  using floor_divide_of_int_eq[of 64 bs, where ?'a = real] by simp

lemma ceiling_eq_floor_iff_dvd:
  assumes nz: "bs \<noteq> 0"
  shows "(\<lceil>(64::real) / of_int bs\<rceil> = 64 div bs) = (bs dvd 64)"
proof
  assume "\<lceil>(64::real) / of_int bs\<rceil> = 64 div bs"
  then have eq: "\<lceil>(64::real) / of_int bs\<rceil> = \<lfloor>(64::real) / of_int bs\<rfloor>"
    by (simp add: floor_64_div)
  have "(64::real) / of_int bs \<le> of_int \<lceil>(64::real) / of_int bs\<rceil>"
    by (rule le_of_int_ceiling)
  moreover have "of_int \<lfloor>(64::real) / of_int bs\<rfloor> \<le> (64::real) / of_int bs"
    by (rule of_int_floor_le)
  ultimately have "(64::real) / of_int bs = of_int \<lfloor>(64::real) / of_int bs\<rfloor>"
    using eq by simp
  then have "(64::real) = of_int (\<lfloor>(64::real) / of_int bs\<rfloor> * bs)"
    using nz by (simp add: field_simps)
  then have "of_int 64 = (of_int (\<lfloor>(64::real) / of_int bs\<rfloor> * bs) :: real)"
    by simp
  then have "64 = \<lfloor>(64::real) / of_int bs\<rfloor> * bs"
    by (simp only: of_int_eq_iff)
  then show "bs dvd 64"
    by (metis dvd_triv_right)
next
  assume "bs dvd 64"
  then obtain k where k: "64 = bs * k"
    unfolding dvd_def by blast
  have "(64::real) = of_int bs * of_int k"
    using k by (metis of_int_mult of_int_numeral)
  then have "(64::real) / of_int bs = of_int k"
    using nz by (simp add: field_simps)
  moreover have "(bs * k) div bs = k"
    using nz by simp
  then have "64 div bs = k"
    by (simp only: k[symmetric])
  ultimately show "\<lceil>(64::real) / of_int bs\<rceil> = 64 div bs"
    by simp
qed

text \<open>
  Claim C5, as the specification states it: the accumulation factor is the ceiling
  of 64 over the configured batch size. The source computes \<^verbatim>\<open>64 // batch_size\<close>,
  which rounds down: for a batch size of 48 the script uses 1, the ceiling is 2.
\<close>

theorem grad_acc_steps_not_ceiling:
  "grad_acc_steps 48 = Inr 1 \<and> spec_accumulation_factor 48 = 2"
  by (simp add: grad_acc_steps_def spec_accumulation_factor_def)

text \<open>
  Claim C5, amended: for every batch size other than zero the accumulation factor
  is the floor of 64 over the batch size; it agrees with the ceiling of the
  specification exactly for the batch sizes that divide 64.
\<close>

theorem grad_acc_steps_floor:
  assumes "bs \<noteq> 0"
  shows "grad_acc_steps bs = Inr \<lfloor>(64::real) / of_int bs\<rfloor> \<and>
         ((grad_acc_steps bs = Inr (spec_accumulation_factor bs)) = (bs dvd 64))"
proof -
  have "grad_acc_steps bs = Inr (64 div bs)"
    using assms by (simp add: grad_acc_steps_def)
  moreover have "(\<lceil>(64::real) / of_int bs\<rceil> = 64 div bs) = (bs dvd 64)"
    using assms by (rule ceiling_eq_floor_iff_dvd)
  ultimately show ?thesis
    by (auto simp: floor_64_div spec_accumulation_factor_def)
qed

theorem grad_acc_steps_floor_witness:
  "grad_acc_steps 16 = Inr \<lfloor>(64::real) / of_int 16\<rfloor> \<and>
   ((grad_acc_steps 16 = Inr (spec_accumulation_factor 16)) = ((16::int) dvd 64))"
  using grad_acc_steps_floor[of 16]
  by (simp add: grad_acc_steps_def spec_accumulation_factor_def)

subsection \<open>The device loop and the unpacking of a batch\<close>

lemma device_loop_fst:
  "fst (device_loop dev js (i, b)) = (if js = [] then i else int (last js))"
  by (induction js arbitrary: i b) auto

lemma device_loop_length:
  "length (snd (device_loop dev js (i, b))) = length b"
  by (induction js arbitrary: i b) (auto split: option.splits)

lemma device_loop_nth:
  "distinct js \<Longrightarrow> k < length b \<Longrightarrow>
   snd (device_loop dev js (i, b)) ! k = (if k \<in> set js then map_option dev (b ! k) else b ! k)"
proof (induction js arbitrary: i b)
  case Nil
  then show ?case by simp
next
  case (Cons j js)
  have ne: "k \<in> set js \<Longrightarrow> k \<noteq> j" using Cons.prems by auto
  show ?case
  proof (cases "b ! j")
    case None
    then show ?thesis using Cons ne by auto
  next
    case (Some t)
    then show ?thesis using Cons ne by (cases "k = j") (auto simp: nth_list_update)
  qed
qed

lemma device_loop_all:
  "device_loop dev [0..<length b] (i, b) =
     ((if b = [] then i else int (length b) - 1), map (map_option dev) b)"
proof -
  have "snd (device_loop dev [0..<length b] (i, b)) = map (map_option dev) b"
    by (rule nth_equalityI) (simp_all add: device_loop_length device_loop_nth)
  moreover have "fst (device_loop dev [0..<length b] (i, b)) = (if b = [] then i else int (length b) - 1)"
    by (cases b) (simp_all add: device_loop_fst)
  ultimately show ?thesis by (simp add: prod_eq_iff)
qed

lemma unpack5_Inr: "length b = 5 \<Longrightarrow> \<exists>l x m e1 e2. b = [l, x, m, e1, e2]"
  by (auto simp: length_Suc_conv eval_nat_numeral)

lemma unpack5_fail: "length b \<noteq> 5 \<Longrightarrow> unpack5 b = Inl ValueError"
  by (auto simp: unpack5_def split: list.splits)

lemma unpack5_eq:
  "unpack5 b = (if length b = 5 then Inr (b ! 0, b ! 1, b ! 2, b ! 3, b ! 4) else Inl ValueError)"
proof (cases "length b = 5")
  case True
  then obtain l x m e1 e2 where "b = [l, x, m, e1, e2]" using unpack5_Inr by blast
  then show ?thesis by (simp add: unpack5_def)
next
  case False
  then show ?thesis by (simp add: unpack5_fail)
qed

lemma losses_of_append: "losses_of m (xs @ ys) = losses_of m xs @ losses_of m ys"
  by (induction m xs rule: losses_of.induct) auto

lemma count_optimize:
  "count_list (trace (optimize env st)) OptimizerStep = Suc (count_list (trace st) OptimizerStep)"
  "count_list (trace (optimize env st)) ZeroGrad = Suc (count_list (trace st) ZeroGrad)"
  "count_list (trace (optimize env st)) SchedulerStep =
     count_list (trace st) SchedulerStep + (if scheduler_step env = None then 0 else 1)"
  by (auto simp: optimize_def emit_def Let_def split: option.splits)

lemma train_batch_Inr:
  assumes "train_batch env a gas (idx, b) (st, tl) = Inr (st', tl')"
  shows "length b = 5 \<and> log_step a \<noteq> 0 \<and> gas \<noteq> 0"
  using assms
  by (auto simp: train_batch_def device_loop_all unpack5_eq Let_def split: if_splits)

subsection \<open>The training loop\<close>

lemma saves_of_append: "saves_of (xs @ ys) = saves_of xs @ saves_of ys"
  by (induction xs rule: saves_of.induct) auto

lemma optimize_effect:
  "trace (optimize env st) = trace st @ opt_events env"
  "files (optimize env st) = files st"
  "training (optimize env st) = training st"
  "list_dev_f1 (optimize env st) = list_dev_f1 st"
  "list_train_loss (optimize env st) = list_train_loss st"
  "list_dev_loss (optimize env st) = list_dev_loss st"
  "global_step (optimize env st) = global_step st"
  by (auto simp: optimize_def emit_def Let_def opt_events_def split: option.splits)

lemma train_batch_effect:
  assumes "train_batch env a gas (idx, b) (st, tsum) = Inr (st', tsum')"
  shows "\<exists>loss. tsum' = l_add env tsum loss \<and> trace st' = trace st @ train_events env a gas st loss \<and>
           same_frame st st' \<and> global_step st' = global_step st + 1"
  using assms
  by (auto simp: train_batch_def device_loop_all unpack5_eq Let_def emit_def train_events_def
        optimize_effect same_frame_def split: if_splits)

lemma train_batch_total:
  assumes "length b = 5" "log_step a \<noteq> 0" "gas \<noteq> 0"
  shows "\<exists>r. train_batch env a gas (idx, b) acc = Inr r"
  using assms
  by (cases acc) (auto simp: train_batch_def device_loop_all unpack5_eq Let_def)

lemma train_events_counts:
  "count_list (train_events env a gas st loss) OptimizerStep = (if 5 mod gas = 0 then 1 else 0)"
  "count_list (train_events env a gas st loss) ZeroGrad = (if 5 mod gas = 0 then 1 else 0)"
  "count_list (train_events env a gas st loss) SchedulerStep =
     (if 5 mod gas = 0 \<and> scheduler_step env \<noteq> None then 1 else 0)"
  "losses_of m (train_events env a gas st loss) = (if training st = m then [loss] else [])"
  "saves_of (train_events env a gas st loss) = []"
  by (auto simp: train_events_def opt_events_def split: option.splits)

lemma same_frame_refl: "same_frame st st"
  by (simp add: same_frame_def)

lemma same_frame_trans: "same_frame st st1 \<Longrightarrow> same_frame st1 st2 \<Longrightarrow> same_frame st st2"
  by (simp add: same_frame_def)

lemma train_loop_effect:
  "train_loop env a gas ibs (st, tsum) = Inr (st', tsum') \<Longrightarrow>
   \<exists>evs. trace st' = trace st @ evs \<and>
     tsum' = foldl (l_add env) tsum (losses_of (training st) evs) \<and>
     losses_of (\<not> training st) evs = [] \<and>
     count_list evs OptimizerStep = (if 5 mod gas = 0 then length ibs else 0) \<and>
     count_list evs ZeroGrad = (if 5 mod gas = 0 then length ibs else 0) \<and>
     count_list evs SchedulerStep =
       (if 5 mod gas = 0 \<and> scheduler_step env \<noteq> None then length ibs else 0) \<and>
     saves_of evs = [] \<and> same_frame st st' \<and>
     global_step st' = global_step st + int (length ibs)"
proof (induction ibs arbitrary: st tsum)
  case Nil
  then show ?case by (auto simp: same_frame_refl intro!: exI[of _ "[]"])
next
  case (Cons ib ibs)
  obtain idx b where ib: "ib = (idx, b)" by (cases ib)
  from Cons.prems obtain st1 tsum1 where
    b1: "train_batch env a gas (idx, b) (st, tsum) = Inr (st1, tsum1)" and
    rest: "train_loop env a gas ibs (st1, tsum1) = Inr (st', tsum')"
    by (auto simp: ib split: sum.splits)
  from train_batch_effect[OF b1] obtain loss where
    l: "tsum1 = l_add env tsum loss" and
    t: "trace st1 = trace st @ train_events env a gas st loss" and
    f: "same_frame st st1" and g: "global_step st1 = global_step st + 1"
    by blast
  have tr: "training st1 = training st" using f by (simp add: same_frame_def)
  from Cons.IH[OF rest] obtain evs where
    e: "trace st' = trace st1 @ evs"
       "tsum' = foldl (l_add env) tsum1 (losses_of (training st1) evs)"
       "losses_of (\<not> training st1) evs = []"
       "count_list evs OptimizerStep = (if 5 mod gas = 0 then length ibs else 0)"
       "count_list evs ZeroGrad = (if 5 mod gas = 0 then length ibs else 0)"
       "count_list evs SchedulerStep =
          (if 5 mod gas = 0 \<and> scheduler_step env \<noteq> None then length ibs else 0)"
       "saves_of evs = []" "same_frame st1 st'"
       "global_step st' = global_step st1 + int (length ibs)"
    by blast
  let ?evs = "train_events env a gas st loss @ evs"
  have "trace st' = trace st @ ?evs" using e(1) t by simp
  moreover have "tsum' = foldl (l_add env) tsum (losses_of (training st) ?evs)"
    using e(2) l tr by (simp add: losses_of_append train_events_counts)
  moreover have "losses_of (\<not> training st) ?evs = []"
    using e(3) tr by (simp add: losses_of_append train_events_counts)
  moreover have "count_list ?evs OptimizerStep = (if 5 mod gas = 0 then length (ib # ibs) else 0)"
    using e(4) by (simp add: train_events_counts)
  moreover have "count_list ?evs ZeroGrad = (if 5 mod gas = 0 then length (ib # ibs) else 0)"
    using e(5) by (simp add: train_events_counts)
  moreover have "count_list ?evs SchedulerStep =
       (if 5 mod gas = 0 \<and> scheduler_step env \<noteq> None then length (ib # ibs) else 0)"
    using e(6) by (auto simp: train_events_counts)
  moreover have "saves_of ?evs = []"
    using e(7) by (simp add: saves_of_append train_events_counts)
  moreover have "same_frame st st'" using f e(8) by (rule same_frame_trans)
  moreover have "global_step st' = global_step st + int (length (ib # ibs))"
    using e(9) g by simp
  ultimately show ?case by blast
qed

lemma train_loop_total:
  "\<forall>ib \<in> set ibs. length (snd ib) = 5 \<Longrightarrow> log_step a \<noteq> 0 \<Longrightarrow> gas \<noteq> 0 \<Longrightarrow>
   \<exists>r. train_loop env a gas ibs acc = Inr r"
proof (induction ibs arbitrary: acc)
  case Nil
  then show ?case by simp
next
  case (Cons ib ibs)
  obtain idx b where ib: "ib = (idx, b)" by (cases ib)
  have "length b = 5" using Cons.prems(1) ib by simp
  from train_batch_total[OF this Cons.prems(2,3)] obtain r where
    "train_batch env a gas (idx, b) acc = Inr r" by blast
  moreover from Cons.IH[of r] Cons.prems obtain r' where "train_loop env a gas ibs r = Inr r'"
    by auto
  ultimately show ?case by (simp add: ib)
qed

lemma map_snd_enumerate_py: "map snd (enumerate_py bs) = bs"
  by (simp add: enumerate_py_def)

lemma set_enumerate_py: "snd ` set (enumerate_py bs) = set bs"
  using map_snd_enumerate_py[of bs] by (metis set_map)

lemma length_enumerate_py: "length (enumerate_py bs) = length bs"
  by (simp add: enumerate_py_def)

lemma five_mod: "0 < gas \<Longrightarrow> ((5::int) mod gas = 0) = (gas = 1 \<or> gas = 5)"
proof
  assume pos: "0 < gas" and m: "(5::int) mod gas = 0"
  then have d: "gas dvd 5" by (simp add: mod_eq_0_iff_dvd)
  then have "gas \<le> 5" by (rule zdvd_imp_le) simp
  with pos have "gas = 1 \<or> gas = 2 \<or> gas = 3 \<or> gas = 4 \<or> gas = 5" by arith
  with d show "gas = 1 \<or> gas = 5" by auto
next
  assume "0 < gas" "gas = 1 \<or> gas = 5"
  then show "(5::int) mod gas = 0" by auto
qed

lemma train_pass_effect:
  assumes "train_pass env a gas epoch st = Inr (st', tsum)"
  shows "\<exists>evs. trace st' = trace st @ ModelTrain # evs \<and>
     tsum = foldl (l_add env) (l_zero env) (losses_of True evs) \<and>
     losses_of False evs = [] \<and>
     count_list evs OptimizerStep = (if 5 mod gas = 0 then length (train_loader env epoch) else 0) \<and>
     count_list evs ZeroGrad = (if 5 mod gas = 0 then length (train_loader env epoch) else 0) \<and>
     count_list evs SchedulerStep =
       (if 5 mod gas = 0 \<and> scheduler_step env \<noteq> None then length (train_loader env epoch) else 0) \<and>
     saves_of evs = [] \<and> files st' = files st \<and> training st' = True \<and>
     list_dev_f1 st' = list_dev_f1 st \<and> list_train_loss st' = list_train_loss st \<and>
     list_dev_loss st' = list_dev_loss st"
proof -
  let ?st0 = "emit ModelTrain (st\<lparr>training := True\<rparr>)"
  from assms have "train_loop env a gas (enumerate_py (train_loader env epoch)) (?st0, l_zero env) = Inr (st', tsum)"
    by (simp add: train_pass_def)
  from train_loop_effect[OF this] obtain evs where
    e: "trace st' = trace ?st0 @ evs"
       "tsum = foldl (l_add env) (l_zero env) (losses_of (training ?st0) evs)"
       "losses_of (\<not> training ?st0) evs = []"
       "count_list evs OptimizerStep = (if 5 mod gas = 0 then length (enumerate_py (train_loader env epoch)) else 0)"
       "count_list evs ZeroGrad = (if 5 mod gas = 0 then length (enumerate_py (train_loader env epoch)) else 0)"
       "count_list evs SchedulerStep =
          (if 5 mod gas = 0 \<and> scheduler_step env \<noteq> None then length (enumerate_py (train_loader env epoch)) else 0)"
       "saves_of evs = []" "same_frame ?st0 st'"
    by blast
  have "trace st' = trace st @ ModelTrain # evs" using e(1) by (simp add: emit_def)
  moreover have "tsum = foldl (l_add env) (l_zero env) (losses_of True evs)"
    using e(2) by (simp add: emit_def)
  moreover have "losses_of False evs = []" using e(3) by (simp add: emit_def)
  moreover have "files st' = files st \<and> training st' = True \<and>
     list_dev_f1 st' = list_dev_f1 st \<and> list_train_loss st' = list_train_loss st \<and>
     list_dev_loss st' = list_dev_loss st"
    using e(8) by (simp add: same_frame_def emit_def)
  ultimately show ?thesis using e(4,5,6,7) by (auto simp: length_enumerate_py)
qed

lemma train_pass_total:
  assumes "\<forall>b \<in> set (train_loader env epoch). length b = 5" "log_step a \<noteq> 0" "gas \<noteq> 0"
  shows "\<exists>r. train_pass env a gas epoch st = Inr r"
proof -
  have "\<forall>ib \<in> set (enumerate_py (train_loader env epoch)). length (snd ib) = 5"
    using assms(1) set_enumerate_py[of "train_loader env epoch"] by auto
  from train_loop_total[OF this assms(2,3)] show ?thesis by (simp add: train_pass_def)
qed

subsection \<open>Optimizer steps in a training pass\<close>

text \<open>
  Claim C2: in a training pass over batches of five fields, the loop that moves the
  batch to the device leaves \<^verbatim>\<open>i = 4\<close> for every batch, whatever the index of the
  batch, so that the accumulation condition is \<^verbatim>\<open>5 % grad_acc_steps == 0\<close> for all
  of them. With a logging step and an accumulation factor other than zero the pass
  completes, and the optimizer step and the clearing of the gradients happen once for
  every batch when the factor divides 5 and never otherwise; the scheduler step
  happens with them when a scheduler exists. A positive factor divides 5 exactly when
  it is 1 or 5.
\<close>

theorem train_pass_steps_every_batch_or_never:
  assumes five: "\<forall>b \<in> set (train_loader env epoch). length b = 5"
    and log: "log_step a \<noteq> 0" and gas: "gas \<noteq> 0"
  shows "(\<forall>b \<in> set (train_loader env epoch). \<forall>idx.
            fst (device_loop (to_device env) [0..<length b] (int idx, b)) = 4) \<and>
         (\<exists>st' tsum. train_pass env a gas epoch st = Inr (st', tsum) \<and>
            count_list (trace st') OptimizerStep =
              count_list (trace st) OptimizerStep +
              (if 5 mod gas = 0 then length (train_loader env epoch) else 0) \<and>
            count_list (trace st') ZeroGrad =
              count_list (trace st) ZeroGrad +
              (if 5 mod gas = 0 then length (train_loader env epoch) else 0) \<and>
            count_list (trace st') SchedulerStep =
              count_list (trace st) SchedulerStep +
              (if 5 mod gas = 0 \<and> scheduler_step env \<noteq> None
               then length (train_loader env epoch) else 0)) \<and>
         (0 < gas \<longrightarrow> (5 mod gas = 0) = (gas = 1 \<or> gas = 5))"
proof (intro conjI)
  show "\<forall>b \<in> set (train_loader env epoch). \<forall>idx.
          fst (device_loop (to_device env) [0..<length b] (int idx, b)) = 4"
  proof (intro ballI allI)
    fix b idx assume "b \<in> set (train_loader env epoch)"
    then have l: "length b = 5" using five by blast
    have e: "fst (device_loop (to_device env) [0..<length b] (int idx, b)) =
            (if b = [] then int idx else int (length b) - 1)"
      by (simp only: device_loop_all fst_conv)
    have "b \<noteq> []" using l by auto
    then have "fst (device_loop (to_device env) [0..<length b] (int idx, b)) = int (length b) - 1"
      using e by (simp only: if_False)
    also have "\<dots> = 4" using l by simp
    finally show "fst (device_loop (to_device env) [0..<length b] (int idx, b)) = 4" .
  qed
next
  from train_pass_total[OF five log gas] obtain st' tsum where
    r: "train_pass env a gas epoch st = Inr (st', tsum)" by fastforce
  from train_pass_effect[OF r] obtain evs where
    e: "trace st' = trace st @ ModelTrain # evs"
       "count_list evs OptimizerStep = (if 5 mod gas = 0 then length (train_loader env epoch) else 0)"
       "count_list evs ZeroGrad = (if 5 mod gas = 0 then length (train_loader env epoch) else 0)"
       "count_list evs SchedulerStep =
          (if 5 mod gas = 0 \<and> scheduler_step env \<noteq> None then length (train_loader env epoch) else 0)"
    by blast
  have "count_list (trace st') OptimizerStep =
          count_list (trace st) OptimizerStep +
          (if 5 mod gas = 0 then length (train_loader env epoch) else 0)"
    using e(1,2) by simp
  moreover have "count_list (trace st') ZeroGrad =
          count_list (trace st) ZeroGrad +
          (if 5 mod gas = 0 then length (train_loader env epoch) else 0)"
    using e(1,3) by simp
  moreover have "count_list (trace st') SchedulerStep =
          count_list (trace st) SchedulerStep +
          (if 5 mod gas = 0 \<and> scheduler_step env \<noteq> None
           then length (train_loader env epoch) else 0)"
    using e(1,4) by auto
  ultimately show "\<exists>st' tsum. train_pass env a gas epoch st = Inr (st', tsum) \<and>
            count_list (trace st') OptimizerStep =
              count_list (trace st) OptimizerStep +
              (if 5 mod gas = 0 then length (train_loader env epoch) else 0) \<and>
            count_list (trace st') ZeroGrad =
              count_list (trace st) ZeroGrad +
              (if 5 mod gas = 0 then length (train_loader env epoch) else 0) \<and>
            count_list (trace st') SchedulerStep =
              count_list (trace st) SchedulerStep +
              (if 5 mod gas = 0 \<and> scheduler_step env \<noteq> None
               then length (train_loader env epoch) else 0)"
    using r by blast
next
  show "0 < gas \<longrightarrow> (5 mod gas = 0) = (gas = 1 \<or> gas = 5)"
    by (rule impI) (rule five_mod)
qed

theorem train_pass_steps_every_batch_or_never_witness:
  "\<exists>st' tsum. train_pass demo_env demo_args 1 1 (initial_state demo_env) = Inr (st', tsum) \<and>
      count_list (trace st') OptimizerStep = 2 \<and>
      count_list (trace st') ZeroGrad = 2 \<and>
      count_list (trace st') SchedulerStep = 2"
proof -
  have five: "\<forall>b \<in> set (train_loader demo_env 1). length b = 5"
    by (simp add: demo_env_def demo_batch_def)
  have log: "log_step demo_args \<noteq> 0"
    by (simp add: demo_args_def)
  have len: "length (train_loader demo_env 1) = 2" and sch: "scheduler_step demo_env \<noteq> None"
    by (simp_all add: demo_env_def)
  have tr: "trace (initial_state demo_env) = []"
    by (simp add: initial_state_def)
  from train_pass_steps_every_batch_or_never[OF five log, where gas = 1 and st = "initial_state demo_env"]
  show ?thesis
    by (simp add: len sch tr numeral_2_eq_2)
qed

text \<open>
  Claim C1 says that a training pass over \<open>B\<close> batches with accumulation factor \<open>A\<close>
  performs \<open>B div A\<close> optimizer steps. With \<^verbatim>\<open>--batch_size 32\<close> the factor is 2; on
  the two training batches of the example the pass performs no optimizer step at
  all, where \<open>2 div 2 = 1\<close> step is claimed: the trace of the pass holds the two
  forward and backward passes and nothing else.
\<close>

theorem train_pass_two_batches_factor_two:
  "grad_acc_steps 32 = Inr 2 \<and>
   train_pass demo_env (demo_args\<lparr>batch_size := 32\<rparr>) 2 1 (initial_state demo_env) =
     Inr (\<lparr>model = 0, training = True, files = Map.empty,
           trace = [ModelTrain, Forward True, Criterion True 6, PrintStep 0, Backward,
                    Forward True, Criterion True 6, Backward],
           global_step = 2, list_train_loss = [], list_dev_loss = [], list_dev_f1 = []\<rparr>, 12) \<and>
   length (train_loader demo_env 1) div 2 = 1"
  by (simp add: train_pass_def enumerate_py_def demo_env_def demo_batch_def demo_args_def
      initial_state_def train_batch_def unpack5_def emit_def optimize_def Let_def upt_rec
      grad_acc_steps_def)

subsection \<open>A batch size above 64\<close>

lemma train_batch_zero:
  assumes "length b = 5" "log_step a \<noteq> 0"
  shows "\<exists>st'. train_batch env a 0 (idx, b) (st, tsum) =
             Inl (ZeroDivisionError AccumulationCondition, st') \<and>
           count_list (trace st') OptimizerStep = count_list (trace st) OptimizerStep \<and>
           count_list (trace st') (Forward True) =
             count_list (trace st) (Forward True) + (if training st then 1 else 0)"
  using assms
  by (auto simp: train_batch_def device_loop_all unpack5_eq Let_def emit_def)

lemma enumerate_py_Cons: "\<exists>rest. enumerate_py (b # bs) = (0, b) # rest"
proof -
  have "[0..<length (b # bs)] = 0 # [Suc 0..<length (b # bs)]"
    by (rule upt_conv_Cons) simp
  then have "enumerate_py (b # bs) = (0, b) # zip [Suc 0..<length (b # bs)] bs"
    by (simp only: enumerate_py_def zip_Cons_Cons)
  then show ?thesis by blast
qed

lemma train_pass_zero:
  assumes "train_loader env epoch = b # bs" "length b = 5" "log_step a \<noteq> 0"
  shows "\<exists>st'. train_pass env a 0 epoch st =
             Inl (ZeroDivisionError AccumulationCondition, st') \<and>
           count_list (trace st') OptimizerStep = count_list (trace st) OptimizerStep \<and>
           count_list (trace st') (Forward True) = count_list (trace st) (Forward True) + 1"
proof -
  let ?st0 = "emit ModelTrain (st\<lparr>training := True\<rparr>)"
  obtain rest where en: "enumerate_py (train_loader env epoch) = (0, b) # rest"
    using enumerate_py_Cons[of b bs] assms(1) by auto
  from train_batch_zero[OF assms(2,3), of env 0 ?st0 "l_zero env"] obtain st' where
    s: "train_batch env a 0 (0, b) (?st0, l_zero env) =
          Inl (ZeroDivisionError AccumulationCondition, st')"
       "count_list (trace st') OptimizerStep = count_list (trace ?st0) OptimizerStep"
       "count_list (trace st') (Forward True) =
          count_list (trace ?st0) (Forward True) + (if training ?st0 then 1 else 0)"
    by blast
  have "train_pass env a 0 epoch st = Inl (ZeroDivisionError AccumulationCondition, st')"
    using s(1) by (simp add: train_pass_def en)
  moreover have "count_list (trace st') OptimizerStep = count_list (trace st) OptimizerStep"
    using s(2) by (simp add: emit_def)
  moreover have "count_list (trace st') (Forward True) = count_list (trace st) (Forward True) + 1"
    using s(3) by (simp add: emit_def)
  ultimately show ?thesis by blast
qed

lemma epoch_loop_first_error:
  "epoch_body env a gas 1 st = Inl e \<Longrightarrow> epoch_loop env a gas (Suc n) st = Inl e"
  by (induction n) simp_all

lemma grad_acc_steps_large: "64 < bs \<Longrightarrow> grad_acc_steps bs = Inr 0"
  by (simp add: grad_acc_steps_def)

text \<open>
  Claim C10: for a batch size above 64 the accumulation factor is 0, and a run that
  reaches its first training batch (the method selectors pass the lookup, there is at
  least one epoch, the logging step is not zero, and the first batch of the first
  epoch has five fields) stops there with the division by zero of the accumulation
  condition: one forward pass has been made and no optimizer step.
\<close>

theorem batch_size_above_64_aborts:
  assumes big: "64 < batch_size a"
    and names: "method_names a = Inr nm"
    and epochs: "1 \<le> num_epoch a"
    and log: "log_step a \<noteq> 0"
    and first: "train_loader env 1 = b # bs" "length b = 5"
  shows "grad_acc_steps (batch_size a) = Inr 0 \<and>
         (\<exists>st. train env a = Inl (ZeroDivisionError AccumulationCondition, st) \<and>
               count_list (trace st) (Forward True) = 1 \<and>
               count_list (trace st) OptimizerStep = 0)"
proof -
  have g: "grad_acc_steps (batch_size a) = Inr 0"
    using big by (rule grad_acc_steps_large)
  from train_pass_zero[OF first log, of "initial_state env"] obtain st where
    s: "train_pass env a 0 1 (initial_state env) =
          Inl (ZeroDivisionError AccumulationCondition, st)"
       "count_list (trace st) OptimizerStep = count_list (trace (initial_state env)) OptimizerStep"
       "count_list (trace st) (Forward True) =
          count_list (trace (initial_state env)) (Forward True) + 1"
    by blast
  have body: "epoch_body env a 0 1 (initial_state env) =
                Inl (ZeroDivisionError AccumulationCondition, st)"
    using s(1) by (simp add: epoch_body_def)
  obtain n where n: "nat (num_epoch a) = Suc n"
    using epochs by (cases "nat (num_epoch a)") auto
  have "epoch_loop env a 0 (nat (num_epoch a)) (initial_state env) =
          Inl (ZeroDivisionError AccumulationCondition, st)"
    unfolding n using body by (rule epoch_loop_first_error)
  then have "train env a = Inl (ZeroDivisionError AccumulationCondition, st)"
    using names g by (simp add: train_def)
  moreover have "count_list (trace st) OptimizerStep = 0"
    using s(2) by (simp add: initial_state_def)
  moreover have "count_list (trace st) (Forward True) = 1"
    using s(3) by (simp add: initial_state_def)
  ultimately show ?thesis using g by blast
qed

theorem batch_size_above_64_aborts_witness:
  "grad_acc_steps 65 = Inr 0 \<and>
   (\<exists>st. train demo_env (demo_args\<lparr>batch_size := 65\<rparr>) =
            Inl (ZeroDivisionError AccumulationCondition, st) \<and>
         count_list (trace st) (Forward True) = 1 \<and>
         count_list (trace st) OptimizerStep = 0)"
proof -
  have big: "64 < batch_size (demo_args\<lparr>batch_size := 65\<rparr>)"
    by simp
  have names: "method_names (demo_args\<lparr>batch_size := 65\<rparr>) = Inr (''entity_markers'', ''entity_start'')"
    by (simp add: method_names_def py_index_def demo_args_def input_method_name_def
        output_method_name_def)
  have epochs: "1 \<le> num_epoch (demo_args\<lparr>batch_size := 65\<rparr>)"
    and log: "log_step (demo_args\<lparr>batch_size := 65\<rparr>) \<noteq> 0"
    by (simp_all add: demo_args_def)
  have first: "train_loader demo_env 1 = demo_batch # [demo_batch]" "length demo_batch = 5"
    by (simp_all add: demo_env_def demo_batch_def)
  from batch_size_above_64_aborts[OF big names epochs log first]
  show ?thesis by simp
qed

subsection \<open>The method selectors\<close>

lemma py_index_4:
  "length xs = 4 \<Longrightarrow> (py_index xs i = Inl IndexError) = (i < - 4 \<or> 3 < i)"
  by (auto simp: py_index_def)

lemma py_index_cases: "py_index xs i = Inl IndexError \<or> (\<exists>x. py_index xs i = Inr x)"
  by (auto simp: py_index_def)

lemma method_names_IndexError:
  "(method_names a = Inl IndexError) =
     (input_method a < - 4 \<or> 3 < input_method a \<or> output_method a < - 4 \<or> 3 < output_method a)"
proof -
  have i: "(py_index input_method_name (input_method a) = Inl IndexError) =
             (input_method a < - 4 \<or> 3 < input_method a)"
    by (rule py_index_4) (simp add: input_method_name_def)
  have out: "(py_index output_method_name (output_method a) = Inl IndexError) =
             (output_method a < - 4 \<or> 3 < output_method a)"
    by (rule py_index_4) (simp add: output_method_name_def)
  show ?thesis
    using i out py_index_cases[of input_method_name "input_method a"]
      py_index_cases[of output_method_name "output_method a"]
    by (auto simp: method_names_def split: sum.splits)
qed

text \<open>
  Claim C7, as the specification states it: a configuration whose input-method or
  output-method selector is not one of the three declared members is rejected before
  training starts. The source has no validation of the selectors: it looks the names
  up in tables of four entries whose entry 0 is the empty name. With
  \<^verbatim>\<open>--input_method 0\<close> (and one epoch) the lookup returns the empty name and the
  run trains, evaluates and completes.
\<close>

theorem selector_zero_not_rejected:
  "input_method (demo_args\<lparr>input_method := 0, num_epoch := 1\<rparr>) = 0 \<and>
   method_names (demo_args\<lparr>input_method := 0, num_epoch := 1\<rparr>) = Inr ('''', ''entity_start'') \<and>
   \<not> isl (train demo_env (demo_args\<lparr>input_method := 0, num_epoch := 1\<rparr>))"
  by (simp add: train_def method_names_def py_index_def input_method_name_def
      output_method_name_def grad_acc_steps_def demo_args_def demo_env_def demo_batch_def
      initial_state_def epoch_body_def train_pass_def eval_pass_def enumerate_py_def
      train_batch_def eval_batch_def unpack5_def emit_def optimize_def Let_def upt_rec
      torch_argmax_dim1_def id2label_def normalise_def checkpoint_def torch_save_def
      copyfile_def os_remove_def is_new_best_def py_max_def model_file_def best_model_file_def
      model_save_dir_def py_str_def digits.simps digit_char_def numeral_2_eq_2)

text \<open>
  Claim C7, amended: the selectors that \<^verbatim>\<open>train\<close> rejects are those outside the
  index range \<open>-4, \<dots>, 3\<close> of the name tables. For them the lookup raises
  \<^verbatim>\<open>IndexError\<close> and the run ends in its initial state, before the model is loaded
  or any batch is read. The selector 0 and the negative selectors \<open>-4, \<dots>, -1\<close>
  (which Python counts from the end of the table) pass the lookup.
\<close>

theorem selectors_rejected_by_lookup:
  "(method_names a = Inl IndexError) =
     (input_method a < - 4 \<or> 3 < input_method a \<or> output_method a < - 4 \<or> 3 < output_method a) \<and>
   (method_names a = Inl IndexError \<longrightarrow>
      train env a = Inl (IndexError, initial_state env) \<and> trace (initial_state env) = [])"
proof (intro conjI impI)
  show "(method_names a = Inl IndexError) =
     (input_method a < - 4 \<or> 3 < input_method a \<or> output_method a < - 4 \<or> 3 < output_method a)"
    by (rule method_names_IndexError)
next
  assume "method_names a = Inl IndexError"
  then show "train env a = Inl (IndexError, initial_state env)"
    by (simp add: train_def)
next
  show "trace (initial_state env) = []"
    by (simp add: initial_state_def)
qed

theorem selectors_rejected_by_lookup_witness:
  "method_names (demo_args\<lparr>output_method := 4\<rparr>) = Inl IndexError \<and>
   train demo_env (demo_args\<lparr>output_method := 4\<rparr>) = Inl (IndexError, initial_state demo_env) \<and>
   trace (initial_state demo_env) = []"
  using selectors_rejected_by_lookup[of "demo_args\<lparr>output_method := 4\<rparr>" demo_env]
  by (simp add: demo_args_def)

subsection \<open>The evaluation pass\<close>

lemma eval_batch_eq:
  assumes "training st = False"
  shows "eval_batch env (idx, b) (st, preds, dl) =
     (if length b \<noteq> 5 then Inl (ValueError, st)
      else if [] \<in> set (batch_logits env (model st) b)
        then Inl (IndexError,
               st\<lparr>trace := trace st @ [Forward False, Criterion False (batch_loss env (model st) b)]\<rparr>)
        else Inr (st\<lparr>trace := trace st @ [Forward False, Criterion False (batch_loss env (model st) b)]\<rparr>,
                  preds @ map argmax_list (batch_logits env (model st) b),
                  l_add env dl (batch_loss env (model st) b)))"
  using assms
  by (simp add: eval_batch_def device_loop_all unpack5_eq Let_def emit_def batch_logits_def
      batch_loss_def torch_argmax_dim1_def)

lemma eval_loop_iff:
  assumes "training st = False"
  shows "eval_loop env ibs (st, preds, dl) = Inr r \<longleftrightarrow>
     eval_ok env (model st) (map snd ibs) \<and>
     r = (st\<lparr>trace := trace st @ eval_events env (model st) (map snd ibs)\<rparr>,
          preds @ eval_predictions env (model st) (map snd ibs),
          foldl (l_add env) dl (map (batch_loss env (model st)) (map snd ibs)))"
  using assms
proof (induction ibs arbitrary: st preds dl)
  case Nil
  then show ?case by (auto simp: eval_ok_def eval_events_def eval_predictions_def)
next
  case (Cons ib ibs)
  obtain idx b where ib: "ib = (idx, b)" by (cases ib)
  let ?st2 = "st\<lparr>trace := trace st @ [Forward False, Criterion False (batch_loss env (model st) b)]\<rparr>"
  have t2: "training ?st2 = False" using Cons.prems by simp
  show ?case
  proof (cases "length b = 5 \<and> [] \<notin> set (batch_logits env (model st) b)")
    case True
    then have step: "eval_batch env (idx, b) (st, preds, dl) =
        Inr (?st2, preds @ map argmax_list (batch_logits env (model st) b),
             l_add env dl (batch_loss env (model st) b))"
      using Cons.prems by (simp add: eval_batch_eq)
    show ?thesis
      using True Cons.IH[OF t2]
      by (simp add: ib step eval_ok_def eval_events_def eval_predictions_def)
  next
    case False
    then have "\<exists>e. eval_batch env (idx, b) (st, preds, dl) = Inl e"
      using Cons.prems by (auto simp: eval_batch_eq)
    then show ?thesis using False by (auto simp: ib eval_ok_def)
  qed
qed

lemma eval_pass_iff:
  "eval_pass env bs st = Inr (st1, labels, dloss) \<longleftrightarrow>
     eval_ok env (model st) bs \<and>
     lookup_all (id2label env) (eval_predictions env (model st) bs) = Inr labels \<and>
     st1 = st\<lparr>training := False, trace := trace st @ ModelEval # eval_events env (model st) bs\<rparr> \<and>
     dloss = foldl (l_add env) (l_zero env) (map (batch_loss env (model st)) bs)"
proof -
  let ?st0 = "emit ModelEval (st\<lparr>training := False\<rparr>)"
  have t: "training ?st0 = False" by (simp add: emit_def)
  have m: "model ?st0 = model st" by (simp add: emit_def)
  show ?thesis
    unfolding eval_pass_def
    using eval_loop_iff[OF t, of env "enumerate_py bs" "[]" "l_zero env"]
    by (auto simp: m map_snd_enumerate_py emit_def split: sum.splits prod.splits)
qed

lemma argmax_list_props:
  "r \<noteq> [] \<Longrightarrow>
   argmax_list r < length r \<and> (\<forall>j<length r. r ! j \<le> r ! argmax_list r) \<and>
   (\<forall>j<argmax_list r. r ! j < r ! argmax_list r)"
proof (induction r rule: argmax_list.induct)
  case 1
  then show ?case by simp
next
  case (2 x)
  then show ?case by simp
next
  case (3 x y ys)
  let ?t = "y # ys"
  let ?k = "argmax_list ?t"
  from 3 have ih: "?k < length ?t" "\<forall>j<length ?t. ?t ! j \<le> ?t ! ?k" "\<forall>j<?k. ?t ! j < ?t ! ?k"
    by simp_all
  show ?case
  proof (cases "x < ?t ! ?k")
    case True
    then have a: "argmax_list (x # ?t) = Suc ?k" by (simp add: Let_def)
    have "\<forall>j<length (x # ?t). (x # ?t) ! j \<le> (x # ?t) ! Suc ?k"
    proof (intro allI impI)
      fix j assume "j < length (x # ?t)"
      then show "(x # ?t) ! j \<le> (x # ?t) ! Suc ?k"
        using ih(2) True by (cases j) auto
    qed
    moreover have "\<forall>j<Suc ?k. (x # ?t) ! j < (x # ?t) ! Suc ?k"
    proof (intro allI impI)
      fix j assume "j < Suc ?k"
      then show "(x # ?t) ! j < (x # ?t) ! Suc ?k"
        using ih(3) True by (cases j) auto
    qed
    ultimately show ?thesis using ih(1) a by simp
  next
    case False
    then have a: "argmax_list (x # ?t) = 0" by (simp add: Let_def)
    have "\<forall>j<length (x # ?t). (x # ?t) ! j \<le> (x # ?t) ! 0"
    proof (intro allI impI)
      fix j assume j: "j < length (x # ?t)"
      show "(x # ?t) ! j \<le> (x # ?t) ! 0"
      proof (cases j)
        case 0
        then show ?thesis by simp
      next
        case (Suc j')
        then have "?t ! j' \<le> ?t ! ?k" using ih(2) j by simp
        also have "\<dots> \<le> x" using False by simp
        finally show ?thesis using Suc by simp
      qed
    qed
    then show ?thesis using a by simp
  qed
qed

lemma argmax_list_unique:
  assumes "k < length r" "\<forall>j<length r. r ! j \<le> r ! k" "\<forall>j<k. r ! j < r ! k"
  shows "argmax_list r = k"
proof -
  have ne: "r \<noteq> []" using assms(1) by auto
  note p = argmax_list_props[OF ne]
  show ?thesis
  proof (rule ccontr)
    assume "argmax_list r \<noteq> k"
    then consider "argmax_list r < k" | "k < argmax_list r" by linarith
    then show False
    proof cases
      case 1
      then have "r ! argmax_list r < r ! k" using assms(3) by blast
      moreover have "r ! k \<le> r ! argmax_list r" using p assms(1) by blast
      ultimately show False by simp
    next
      case 2
      then have "r ! k < r ! argmax_list r" using p by blast
      moreover have "r ! argmax_list r \<le> r ! k" using assms(2) p by blast
      ultimately show False by simp
    qed
  qed
qed

lemma lookup_all_Inr:
  "lookup_all m ps = Inr ls \<Longrightarrow>
   length ls = length ps \<and> (\<forall>i<length ps. m (int (ps ! i)) = Some (ls ! i))"
proof (induction ps arbitrary: ls)
  case Nil
  then show ?case by simp
next
  case (Cons p ps)
  from Cons.prems obtain l ls' where
    l: "m (int p) = Some l" and r: "lookup_all m ps = Inr ls'" and ls: "ls = l # ls'"
    by (auto split: option.splits sum.splits)
  from Cons.IH[OF r] have ih: "length ls' = length ps" "\<forall>i<length ps. m (int (ps ! i)) = Some (ls' ! i)"
    by simp_all
  have "\<forall>i<length (p # ps). m (int ((p # ps) ! i)) = Some (ls ! i)"
  proof (intro allI impI)
    fix i assume "i < length (p # ps)"
    then show "m (int ((p # ps) ! i)) = Some (ls ! i)"
      using l ih(2) ls by (cases i) auto
  qed
  then show ?case using ih(1) ls by simp
qed

lemma length_concat_sum: "length (concat xss) = sum_list (map length xss)"
  by (induction xss) auto

lemma demo_eval:
  "eval_pass demo_env (dev_loader demo_env 1) (initial_state demo_env) =
     Inr (\<lparr>model = 0, training = False, files = Map.empty,
           trace = [ModelEval, Forward False, Criterion False 6],
           global_step = 0, list_train_loss = [], list_dev_loss = [], list_dev_f1 = []\<rparr>,
          [''per:title'', ''no_relation''], 6)"
  by (simp add: eval_pass_def enumerate_py_def demo_env_def demo_batch_def initial_state_def
      eval_batch_def unpack5_def emit_def Let_def upt_rec torch_argmax_dim1_def id2label_def)

text \<open>
  Claim C6: when the evaluation pass returns, its list of predicted labels has one
  entry for every row of scores the model returned, in the order of the batches and,
  within a batch, of the rows; entry \<open>i\<close> is the label that \<^verbatim>\<open>id2label\<close> holds for the
  argmax of row \<open>i\<close>, and that argmax is the index of the first maximal score of the
  row. The list is as long as the dev dataset when the model returns one row for each
  example of the dataset, which is the contract of the classifier and of the loader
  and is a hypothesis here.
\<close>

theorem eval_pass_predictions:
  assumes run: "eval_pass env bs st = Inr (st1, labels, dloss)"
    and rows: "sum_list (map (\<lambda>b. length (batch_logits env (model st) b)) bs) = dev_examples env"
  shows "length labels = dev_examples env \<and>
         (\<forall>i<length labels.
            id2label env (int (argmax_list (concat (map (batch_logits env (model st)) bs) ! i))) =
              Some (labels ! i)) \<and>
         (\<forall>r \<in> set (concat (map (batch_logits env (model st)) bs)).
            argmax_list r < length r \<and> (\<forall>j<length r. r ! j \<le> r ! argmax_list r) \<and>
            (\<forall>j<argmax_list r. r ! j < r ! argmax_list r))"
proof -
  let ?rows = "concat (map (batch_logits env (model st)) bs)"
  from run have ok: "eval_ok env (model st) bs"
    and lk: "lookup_all (id2label env) (eval_predictions env (model st) bs) = Inr labels"
    by (simp_all add: eval_pass_iff)
  have len: "length ?rows = dev_examples env"
    using rows by (simp add: length_concat_sum comp_def)
  from lookup_all_Inr[OF lk] have
    l1: "length labels = length ?rows" and
    l2: "\<forall>i<length ?rows. id2label env (int (eval_predictions env (model st) bs ! i)) = Some (labels ! i)"
    by (simp_all add: eval_predictions_def)
  have "\<forall>i<length labels. id2label env (int (argmax_list (?rows ! i))) = Some (labels ! i)"
    using l1 l2 by (simp add: eval_predictions_def)
  moreover have "\<forall>r \<in> set ?rows.
            argmax_list r < length r \<and> (\<forall>j<length r. r ! j \<le> r ! argmax_list r) \<and>
            (\<forall>j<argmax_list r. r ! j < r ! argmax_list r)"
  proof
    fix r assume "r \<in> set ?rows"
    then have "r \<noteq> []" using ok by (auto simp: eval_ok_def)
    then show "argmax_list r < length r \<and> (\<forall>j<length r. r ! j \<le> r ! argmax_list r) \<and>
            (\<forall>j<argmax_list r. r ! j < r ! argmax_list r)"
      by (rule argmax_list_props)
  qed
  ultimately show ?thesis using l1 len by simp
qed

theorem eval_pass_predictions_witness:
  "\<exists>st1 labels dloss.
     eval_pass demo_env (dev_loader demo_env 1) (initial_state demo_env) = Inr (st1, labels, dloss) \<and>
     labels = [''per:title'', ''no_relation''] \<and>
     length labels = dev_examples demo_env \<and>
     id2label demo_env (int (argmax_list [0, 3 :: int])) = Some (labels ! 0) \<and>
     id2label demo_env (int (argmax_list [0, 0 :: int])) = Some (labels ! 1)"
proof -
  have rows: "sum_list (map (\<lambda>b. length (batch_logits demo_env (model (initial_state demo_env)) b))
                 (dev_loader demo_env 1)) = dev_examples demo_env"
    by (simp add: batch_logits_def unpack5_def demo_env_def demo_batch_def)
  have c: "concat (map (batch_logits demo_env (model (initial_state demo_env))) (dev_loader demo_env 1)) =
             [[0, 3], [0, 0]]"
    by (simp add: batch_logits_def unpack5_def demo_env_def demo_batch_def initial_state_def)
  from eval_pass_predictions[OF demo_eval rows]
  have "length [''per:title'', ''no_relation''] = dev_examples demo_env"
    and a: "\<forall>i<length [''per:title'', ''no_relation''].
          id2label demo_env (int (argmax_list ([[0, 3], [0, 0 :: int]] ! i))) =
            Some ([''per:title'', ''no_relation''] ! i)"
    unfolding c by blast+
  moreover from a have "id2label demo_env (int (argmax_list [0, 3 :: int])) = Some ''per:title''"
    by force
  moreover from a have "id2label demo_env (int (argmax_list [0, 0 :: int])) = Some ''no_relation''"
    by force
  ultimately show ?thesis using demo_eval by simp
qed

text \<open>
  Claim C9: an evaluation pass that returns leaves the model state, the files and the
  step counter as they were; the calls it makes to the collaborators, after
  \<^verbatim>\<open>model.eval()\<close>, are forward passes and loss computations in evaluation mode and
  nothing else (no backward pass, no optimizer or scheduler step). Run again from any
  state with the same model state, in particular from the state it has just returned,
  it returns the same predictions and the same accumulated loss. The model's forward
  pass is taken as a function of the mode, the model state and the inputs.
\<close>

theorem eval_pass_repeatable:
  fixes env :: "('t, 'm, 's::linorder, 'l, 'f) env" and st :: "('m, 'l, 'f) state"
  assumes run: "eval_pass env bs st = Inr (st1, labels, dloss)"
  shows "model st1 = model st \<and> files st1 = files st \<and> global_step st1 = global_step st \<and>
         (\<exists>evs. trace st1 = trace st @ ModelEval # evs \<and>
                (\<forall>ev \<in> set evs. ev = Forward False \<or> (\<exists>l. ev = Criterion False l))) \<and>
         (\<forall>st'. model st' = model st \<longrightarrow>
                (\<exists>st2. eval_pass env bs st' = Inr (st2, labels, dloss) \<and> model st2 = model st))"
proof -
  from run have ok: "eval_ok env (model st) bs"
    and lk: "lookup_all (id2label env) (eval_predictions env (model st) bs) = Inr labels"
    and s1: "st1 = st\<lparr>training := False, trace := trace st @ ModelEval # eval_events env (model st) bs\<rparr>"
    and dl: "dloss = foldl (l_add env) (l_zero env) (map (batch_loss env (model st)) bs)"
    by (simp_all add: eval_pass_iff)
  have "\<forall>ev \<in> set (eval_events env (model st) bs). ev = Forward False \<or> (\<exists>l. ev = Criterion False l)"
    by (auto simp: eval_events_def)
  then have tr: "\<exists>evs. trace st1 = trace st @ ModelEval # evs \<and>
                (\<forall>ev \<in> set evs. ev = Forward False \<or> (\<exists>l. ev = Criterion False l))"
    using s1 by simp
  have again: "\<forall>st'. model st' = model st \<longrightarrow>
                (\<exists>st2. eval_pass env bs st' = Inr (st2, labels, dloss) \<and> model st2 = model st)"
  proof (intro allI impI)
    fix st' :: "('m, 'l, 'f) state"
    assume m: "model st' = model st"
    let ?st2 = "st'\<lparr>training := False, trace := trace st' @ ModelEval # eval_events env (model st') bs\<rparr>"
    have "eval_pass env bs st' = Inr (?st2, labels, dloss)"
      using ok lk dl by (simp add: eval_pass_iff m)
    moreover have "model ?st2 = model st" using m by simp
    ultimately show "\<exists>st2. eval_pass env bs st' = Inr (st2, labels, dloss) \<and> model st2 = model st"
      by blast
  qed
  show ?thesis using s1 tr again by simp
qed

theorem eval_pass_repeatable_witness:
  "\<exists>st1 st2.
     eval_pass demo_env (dev_loader demo_env 1) (initial_state demo_env) =
       Inr (st1, [''per:title'', ''no_relation''], 6) \<and>
     eval_pass demo_env (dev_loader demo_env 1) st1 =
       Inr (st2, [''per:title'', ''no_relation''], 6) \<and>
     model st1 = model (initial_state demo_env) \<and> model st2 = model (initial_state demo_env)"
proof -
  let ?st1 = "\<lparr>model = 0, training = False, files = Map.empty,
           trace = [ModelEval, Forward False, Criterion False 6],
           global_step = 0, list_train_loss = [], list_dev_loss = [], list_dev_f1 = []\<rparr>
           :: (nat, int, real) state"
  from eval_pass_repeatable[OF demo_eval]
  have m: "model ?st1 = model (initial_state demo_env)"
    and again: "\<forall>st'. model st' = model (initial_state demo_env) \<longrightarrow>
       (\<exists>st2. eval_pass demo_env (dev_loader demo_env 1) st' =
                 Inr (st2, [''per:title'', ''no_relation''], 6) \<and>
              model st2 = model (initial_state demo_env))"
    by blast+
  from again m obtain st2 where
    "eval_pass demo_env (dev_loader demo_env 1) ?st1 = Inr (st2, [''per:title'', ''no_relation''], 6)"
    "model st2 = model (initial_state demo_env)"
    by blast
  then show ?thesis using demo_eval m by blast
qed

end
